theory Spec2Isabelle
  imports Main "HOL-Library.Word"
begin

section \<open>Bytes, hashes and identifiers\<close>

type_synonym byte = "8 word"

text \<open>Go's \<^verbatim>\<open>uint\<close> (64 bits on the platforms the repository builds for).\<close>
type_synonym uint = "64 word"

text \<open>\<^verbatim>\<open>make([]byte, n)\<close>: a fresh slice of \<open>n\<close> zero bytes.\<close>
definition make_bytes :: "nat \<Rightarrow> byte list" where
  "make_bytes n = replicate n 0"

text \<open>
  \<^verbatim>\<open>copy(dst, src)\<close>: the first \<open>min (len dst) (len src)\<close> bytes of \<open>dst\<close> are
  overwritten with those of \<open>src\<close>; the result is \<open>dst\<close> afterwards.
\<close>
definition copy_bytes :: "byte list \<Rightarrow> byte list \<Rightarrow> byte list" where
  "copy_bytes dst src = take (length dst) src @ drop (length src) dst"

text \<open>
  \<^verbatim>\<open>[32]byte\<close>, the array type behind \<^verbatim>\<open>AUMHash\<close> and \<^verbatim>\<open>tkatype.AUMSigHash\<close>.
  \<open>bytes_of h\<close> is the slice \<^verbatim>\<open>h[:]\<close>.
\<close>
typedef bytes32 = "{bs :: byte list. length bs = 32}"
  morphisms bytes_of Bytes32
  by (rule exI [of _ "replicate 32 0"]) simp

setup_lifting type_definition_bytes32

type_synonym AUMHash = bytes32
type_synonym AUMSigHash = bytes32
type_synonym KeyID = "byte list"
type_synonym Signature = "byte list"

text \<open>The zero value of a \<^verbatim>\<open>[32]byte\<close>.\<close>
lift_definition zero_hash :: bytes32 is "make_bytes 32"
  by (simp add: make_bytes_def)

text \<open>
  \<^verbatim>\<open>var h AUMHash; copy(h[:], bs)\<close>: a slice decoded into a hash, zero padded or cut
  to 32 bytes as \<^verbatim>\<open>copy\<close> does.
\<close>
lift_definition decode_hash :: "byte list \<Rightarrow> bytes32" is
  "\<lambda>bs. copy_bytes (make_bytes 32) bs"
  by (simp add: copy_bytes_def make_bytes_def)

section \<open>Data model\<close>

text \<open>
  Modelled from the spec: \<^verbatim>\<open>Key\<close> is declared outside \<^verbatim>\<open>builder.go\<close>. The spec gives
  it an identifier (read by \<^verbatim>\<open>key.ID()\<close>), a vote weight and a string-to-string
  metadata mapping.
\<close>
record Key =
  ID :: KeyID
  votes :: uint
  meta :: "string \<rightharpoonup> string"

datatype AUMKind = AUMAddKey | AUMRemoveKey | AUMUpdateKey

text \<open>
  The fields of \<^verbatim>\<open>AUM\<close> that \<^verbatim>\<open>builder.go\<close> reads and writes. A nil pointer, a nil map
  is \<open>None\<close>; a nil slice is the empty list.
\<close>
record AUM =
  MessageKind :: AUMKind
  PrevAUMHash :: "byte list"
  Key :: "Key option"
  KeyID :: KeyID
  Votes :: "uint option"
  Meta :: "(string \<rightharpoonup> string) option"
  Signatures :: "Signature list"

text \<open>
  Go errors as values. The wrapping of \<^verbatim>\<open>fmt.Errorf\<close> is kept as a constructor that
  carries what the message is formatted from.
\<close>
datatype error =
    External string
  | NotFound
  | AlreadyExists
  | StructuralInvalid
  | SigningFailed error
  | UpdateInvalid error
  | CannotApply error
  | KeyAlreadyExists Key
  | FailedReadingKey KeyID error
  | NoLongerApplies AUMHash AUMHash

text \<open>
  Modelled from the spec: \<^verbatim>\<open>State\<close> is declared outside \<^verbatim>\<open>builder.go\<close>; the spec makes
  it a mapping from key identifier to Key.
\<close>
type_synonym State = "KeyID \<rightharpoonup> Key"

text \<open>
  The interface \<^verbatim>\<open>Signer\<close>: its one method \<^verbatim>\<open>SignAUM\<close>, as the function from the
  signing hash to what the call returns. A nil interface value is \<open>None\<close> in the
  builder.
\<close>
type_synonym Signer = "AUMSigHash \<Rightarrow> error + Signature list"

text \<open>
  Modelled from the spec: \<^verbatim>\<open>Authority\<close> is declared outside \<^verbatim>\<open>builder.go\<close>; it owns one
  head and the State at that head.
\<close>
record Authority =
  head :: AUMHash
  state :: State

text \<open>
  \<^verbatim>\<open>*Authority\<close>: an address into the store of Authority objects. The store is what
  changes when a replica commits an update while a builder session is open. Every
  address holds an Authority: a nil receiver, on which the Go methods panic, is not an
  input of the model.
\<close>
type_synonym aref = nat
type_synonym store = "aref \<Rightarrow> Authority"

record UpdateBuilder =
  a :: aref
  signer :: "Signer option"
  state :: State
  parent :: AUMHash
  out :: "AUM list"

text \<open>
  The methods of \<^verbatim>\<open>AUM\<close> whose bodies are outside \<^verbatim>\<open>builder.go\<close> and whose encoding
  the spec leaves open: they are parameters of the model.
\<close>
record aum_methods =
  Hash :: "AUM \<Rightarrow> AUMHash"
  SigHash :: "AUM \<Rightarrow> AUMSigHash"
  StaticValidate :: "AUM \<Rightarrow> error option"

section \<open>Methods of AUM, State and Authority that the builder calls\<close>

text \<open>
  Modelled from the spec: \<^verbatim>\<open>AUM.Parent\<close> is outside \<^verbatim>\<open>builder.go\<close>. It "returns the
  decoded prevHash and a flag indicating genesis (no parent)".
\<close>
definition Parent :: "AUM \<Rightarrow> AUMHash \<times> bool" where
  "Parent u = (decode_hash (PrevAUMHash u), PrevAUMHash u = [])"

text \<open>
  Modelled from the spec: \<^verbatim>\<open>State.GetKey\<close> is outside \<^verbatim>\<open>builder.go\<close>. It "returns the
  Key or fails NotFound".
\<close>
definition GetKey :: "State \<Rightarrow> KeyID \<Rightarrow> error + Key" where
  "GetKey s kid = (case s kid of None \<Rightarrow> Inl NotFound | Some k \<Rightarrow> Inr k)"

text \<open>
  Modelled from the spec: \<^verbatim>\<open>State.applyVerifiedAUM\<close> is outside \<^verbatim>\<open>builder.go\<close>. It
  dispatches on the kind. AddKey fails AlreadyExists if the id is present, else inserts
  the Key unchanged; RemoveKey fails NotFound if the id is absent, else removes it;
  UpdateKey fails NotFound if the id is absent, else replaces the vote weight if votes
  is present and the metadata map if meta is present. It returns a new State and never
  changes its receiver. The spec leaves an AddKey message without a key to
  StaticValidate; here it is rejected as StructuralInvalid.
\<close>
definition applyVerifiedAUM :: "State \<Rightarrow> AUM \<Rightarrow> error + State" where
  "applyVerifiedAUM s u =
    (case MessageKind u of
       AUMAddKey \<Rightarrow>
         (case Key u of
            None \<Rightarrow> Inl StructuralInvalid
          | Some k \<Rightarrow>
              (case s (ID k) of
                 Some _ \<Rightarrow> Inl AlreadyExists
               | None \<Rightarrow> Inr (s(ID k \<mapsto> k))))
     | AUMRemoveKey \<Rightarrow>
         (case s (KeyID u) of
            None \<Rightarrow> Inl NotFound
          | Some _ \<Rightarrow> Inr (s(KeyID u := None)))
     | AUMUpdateKey \<Rightarrow>
         (case s (KeyID u) of
            None \<Rightarrow> Inl NotFound
          | Some k \<Rightarrow>
              Inr (s(KeyID u \<mapsto>
                k\<lparr>votes := (case Votes u of None \<Rightarrow> votes k | Some v \<Rightarrow> v),
                  meta := (case Meta u of None \<Rightarrow> meta k | Some m \<Rightarrow> m)\<rparr>))))"

text \<open>
  Modelled from the spec: \<^verbatim>\<open>Authority.Head\<close> is outside \<^verbatim>\<open>builder.go\<close>. It "returns
  current committed hash".
\<close>
definition Head :: "Authority \<Rightarrow> AUMHash" where
  "Head au = head au"

section \<open>UpdateBuilder\<close>

text \<open>
  The methods take the builder \<^verbatim>\<open>*b\<close> and return it as the call leaves it, next to the
  returned \<^verbatim>\<open>error\<close> (\<open>None\<close> is nil).
\<close>

text \<open>Lines 34 to 36 of \<^verbatim>\<open>mkUpdate\<close>: the update with its \<^verbatim>\<open>PrevAUMHash\<close> set.\<close>
definition link_update :: "UpdateBuilder \<Rightarrow> AUM \<Rightarrow> AUM" where
  "link_update b update =
    (let prevHash = copy_bytes (make_bytes (length (bytes_of (parent b)))) (bytes_of (parent b))
     in update\<lparr>PrevAUMHash := prevHash\<rparr>)"

text \<open>Lines 38 to 44 of \<^verbatim>\<open>mkUpdate\<close>: the signing step, on the linked update.\<close>
definition sign_update :: "aum_methods \<Rightarrow> UpdateBuilder \<Rightarrow> AUM \<Rightarrow> error + AUM" where
  "sign_update M b update =
    (case signer b of
       None \<Rightarrow> Inr update
     | Some sg \<Rightarrow>
         (case sg (SigHash M update) of
            Inl err \<Rightarrow> Inl (SigningFailed err)
          | Inr sigs \<Rightarrow> Inr (update\<lparr>Signatures := Signatures update @ sigs\<rparr>)))"

definition mkUpdate :: "aum_methods \<Rightarrow> UpdateBuilder \<Rightarrow> AUM \<Rightarrow> error option \<times> UpdateBuilder" where
  "mkUpdate M b update0 =
    (case sign_update M b (link_update b update0) of
       Inl err \<Rightarrow> (Some err, b)
     | Inr update \<Rightarrow>
         (case StaticValidate M update of
            Some err \<Rightarrow> (Some (UpdateInvalid err), b)
          | None \<Rightarrow>
              (case applyVerifiedAUM (state b) update of
                 Inl err \<Rightarrow> (Some (CannotApply err), b)
               | Inr st \<Rightarrow>
                   (None, b\<lparr>state := st, parent := Hash M update, out := out b @ [update]\<rparr>))))"

definition AddKey :: "aum_methods \<Rightarrow> UpdateBuilder \<Rightarrow> Key \<Rightarrow> error option \<times> UpdateBuilder" where
  "AddKey M b key =
    (case GetKey (state b) (ID key) of
       Inr _ \<Rightarrow> (Some (KeyAlreadyExists key), b)
     | Inl _ \<Rightarrow>
         mkUpdate M b \<lparr>MessageKind = AUMAddKey, PrevAUMHash = [], Key = Some key, KeyID = [],
           Votes = None, Meta = None, Signatures = []\<rparr>)"

definition RemoveKey :: "aum_methods \<Rightarrow> UpdateBuilder \<Rightarrow> KeyID \<Rightarrow> error option \<times> UpdateBuilder" where
  "RemoveKey M b keyID =
    (case GetKey (state b) keyID of
       Inl err \<Rightarrow> (Some (FailedReadingKey keyID err), b)
     | Inr _ \<Rightarrow>
         mkUpdate M b \<lparr>MessageKind = AUMRemoveKey, PrevAUMHash = [], Key = None, KeyID = keyID,
           Votes = None, Meta = None, Signatures = []\<rparr>)"

definition SetKeyVote ::
  "aum_methods \<Rightarrow> UpdateBuilder \<Rightarrow> KeyID \<Rightarrow> uint \<Rightarrow> error option \<times> UpdateBuilder" where
  "SetKeyVote M b keyID v =
    (case GetKey (state b) keyID of
       Inl err \<Rightarrow> (Some (FailedReadingKey keyID err), b)
     | Inr _ \<Rightarrow>
         mkUpdate M b \<lparr>MessageKind = AUMUpdateKey, PrevAUMHash = [], Key = None, KeyID = keyID,
           Votes = Some v, Meta = None, Signatures = []\<rparr>)"

definition SetKeyMeta ::
  "aum_methods \<Rightarrow> UpdateBuilder \<Rightarrow> KeyID \<Rightarrow> (string \<rightharpoonup> string) option
    \<Rightarrow> error option \<times> UpdateBuilder" where
  "SetKeyMeta M b keyID m =
    (case GetKey (state b) keyID of
       Inl err \<Rightarrow> (Some (FailedReadingKey keyID err), b)
     | Inr _ \<Rightarrow>
         mkUpdate M b \<lparr>MessageKind = AUMUpdateKey, PrevAUMHash = [], Key = None, KeyID = keyID,
           Votes = None, Meta = m, Signatures = []\<rparr>)"

text \<open>
  \<^verbatim>\<open>Finalize\<close> reads the Authority behind \<^verbatim>\<open>b.a\<close> in the store as it is at the call.
  The nil slice it returns on a conflict is the empty list.
\<close>
definition Finalize :: "store \<Rightarrow> UpdateBuilder \<Rightarrow> AUM list \<times> error option" where
  "Finalize \<sigma> b =
    (if length (out b) > 0 \<and> fst (Parent (out b ! 0)) \<noteq> Head (\<sigma> (a b))
     then ([], Some (NoLongerApplies (fst (Parent (out b ! 0))) (Head (\<sigma> (a b)))))
     else (out b, None))"

definition NewUpdater :: "store \<Rightarrow> aref \<Rightarrow> Signer option \<Rightarrow> UpdateBuilder" where
  "NewUpdater \<sigma> r sg =
    \<lparr>a = r, signer = sg, state = Authority.state (\<sigma> r), parent = Head (\<sigma> r), out = []\<rparr>"

section \<open>Builder sessions\<close>

text \<open>One call of a caller on a builder.\<close>
datatype edit =
    CallAddKey Key
  | CallRemoveKey KeyID
  | CallSetKeyVote KeyID uint
  | CallSetKeyMeta KeyID "(string \<rightharpoonup> string) option"
  | CallMkUpdate AUM

fun call :: "aum_methods \<Rightarrow> edit \<Rightarrow> UpdateBuilder \<Rightarrow> error option \<times> UpdateBuilder" where
  "call M (CallAddKey key) b = AddKey M b key"
| "call M (CallRemoveKey keyID) b = RemoveKey M b keyID"
| "call M (CallSetKeyVote keyID v) b = SetKeyVote M b keyID v"
| "call M (CallSetKeyMeta keyID m) b = SetKeyMeta M b keyID m"
| "call M (CallMkUpdate update) b = mkUpdate M b update"

text \<open>
  A session: the calls in order on one builder, whatever each returns (a caller may go
  on after a failed call).
\<close>
fun session :: "aum_methods \<Rightarrow> edit list \<Rightarrow> UpdateBuilder \<Rightarrow> UpdateBuilder" where
  "session M [] b = b"
| "session M (e # es) b = session M es (snd (call M e b))"

section \<open>The builder and the Authority as objects in a heap\<close>

text \<open>
  The methods above take the builder as a value and return it. To see what the methods
  write, the same methods are given here as they run on pointers: \<^verbatim>\<open>b\<close> is the address
  of a builder object, \<^verbatim>\<open>b.a\<close> the address of an Authority object, and every method
  takes the whole heap and returns it.

  A Go \<^verbatim>\<open>State\<close> is a struct that is copied by assignment (line 118 copies \<^verbatim>\<open>a.state\<close>
  into the builder) while the storage of its keys is shared by the copies. A State
  field therefore holds the address of a cell of \<open>states\<close>, and copying the struct
  copies the address: after \<^verbatim>\<open>NewUpdater\<close> the builder and the Authority name the same
  cell.
\<close>
type_synonym bref = nat
type_synonym sref = nat

text \<open>
  Modelled from the spec: \<^verbatim>\<open>Authority\<close> is declared outside \<^verbatim>\<open>builder.go\<close>; it owns one
  head and the State at that head (here the cell of that State).
\<close>
record authority_obj =
  auth_head :: AUMHash
  auth_state :: sref

text \<open>The struct \<^verbatim>\<open>UpdateBuilder\<close> of lines 23 to 31, its State a cell address.\<close>
record builder_obj =
  b_a :: aref
  b_signer :: "Signer option"
  b_state :: sref
  b_parent :: AUMHash
  b_out :: "AUM list"

text \<open>
  The heap: the Authority objects, the builder objects and the cells of States, with
  the first cell and the first builder address that are not in use yet.
\<close>
record heap =
  authorities :: "aref \<Rightarrow> authority_obj"
  builders :: "bref \<Rightarrow> builder_obj"
  states :: "sref \<Rightarrow> State"
  next_state :: sref
  next_builder :: bref

text \<open>What reading through the pointers gives: the builder at \<open>p\<close> as a value.\<close>
definition deref :: "heap \<Rightarrow> bref \<Rightarrow> UpdateBuilder" where
  "deref h p =
    \<lparr>a = b_a (builders h p), signer = b_signer (builders h p),
     state = states h (b_state (builders h p)), parent = b_parent (builders h p),
     out = b_out (builders h p)\<rparr>"

text \<open>The Authority objects of a heap as values.\<close>
definition store_of :: "heap \<Rightarrow> store" where
  "store_of h =
    (\<lambda>r. \<lparr>head = auth_head (authorities h r),
           state = states h (auth_state (authorities h r))\<rparr>)"

text \<open>
  Modelled from the spec: \<^verbatim>\<open>State.GetKey\<close> is outside \<^verbatim>\<open>builder.go\<close>; a "pure lookup"
  that "returns the Key or fails NotFound". It reads the cell and writes nothing.
\<close>
definition GetKey_h :: "heap \<Rightarrow> sref \<Rightarrow> KeyID \<Rightarrow> error + Key" where
  "GetKey_h h s kid = GetKey (states h s) kid"

text \<open>
  Modelled from the spec: \<^verbatim>\<open>State.applyVerifiedAUM\<close> is outside \<^verbatim>\<open>builder.go\<close>. "This
  function never mutates its receiver; it returns a new State value": the State it
  computes is put into a cell that was not in use, whose address it returns, and the
  cell of the receiver is not written.
\<close>
definition applyVerifiedAUM_h :: "sref \<Rightarrow> AUM \<Rightarrow> heap \<Rightarrow> (error + sref) \<times> heap" where
  "applyVerifiedAUM_h s u h =
    (case applyVerifiedAUM (states h s) u of
       Inl err \<Rightarrow> (Inl err, h)
     | Inr st \<Rightarrow>
         (Inr (next_state h),
          h\<lparr>states := (states h)(next_state h := st), next_state := Suc (next_state h)\<rparr>))"

text \<open>
  Lines 33 to 57 on the builder object at \<open>p\<close>. The linking and signing steps read
  \<^verbatim>\<open>b.parent\<close> and \<^verbatim>\<open>b.signer\<close>; the three assignments of lines 53 to 55 are the one
  write to the object.
\<close>
definition mkUpdate_h :: "aum_methods \<Rightarrow> bref \<Rightarrow> AUM \<Rightarrow> heap \<Rightarrow> error option \<times> heap" where
  "mkUpdate_h M p update0 h =
    (case sign_update M (deref h p) (link_update (deref h p) update0) of
       Inl err \<Rightarrow> (Some err, h)
     | Inr update \<Rightarrow>
         (case StaticValidate M update of
            Some err \<Rightarrow> (Some (UpdateInvalid err), h)
          | None \<Rightarrow>
              (case applyVerifiedAUM_h (b_state (builders h p)) update h of
                 (Inl err, h') \<Rightarrow> (Some (CannotApply err), h')
               | (Inr st, h') \<Rightarrow>
                   (None,
                    h'\<lparr>builders := (builders h')
                      (p := (builders h' p)\<lparr>b_state := st, b_parent := Hash M update,
                             b_out := b_out (builders h' p) @ [update]\<rparr>)\<rparr>))))"

definition AddKey_h :: "aum_methods \<Rightarrow> bref \<Rightarrow> Key \<Rightarrow> heap \<Rightarrow> error option \<times> heap" where
  "AddKey_h M p key h =
    (case GetKey_h h (b_state (builders h p)) (ID key) of
       Inr _ \<Rightarrow> (Some (KeyAlreadyExists key), h)
     | Inl _ \<Rightarrow>
         mkUpdate_h M p \<lparr>MessageKind = AUMAddKey, PrevAUMHash = [], Key = Some key,
           KeyID = [], Votes = None, Meta = None, Signatures = []\<rparr> h)"

definition RemoveKey_h :: "aum_methods \<Rightarrow> bref \<Rightarrow> KeyID \<Rightarrow> heap \<Rightarrow> error option \<times> heap" where
  "RemoveKey_h M p keyID h =
    (case GetKey_h h (b_state (builders h p)) keyID of
       Inl err \<Rightarrow> (Some (FailedReadingKey keyID err), h)
     | Inr _ \<Rightarrow>
         mkUpdate_h M p \<lparr>MessageKind = AUMRemoveKey, PrevAUMHash = [], Key = None,
           KeyID = keyID, Votes = None, Meta = None, Signatures = []\<rparr> h)"

definition SetKeyVote_h ::
  "aum_methods \<Rightarrow> bref \<Rightarrow> KeyID \<Rightarrow> uint \<Rightarrow> heap \<Rightarrow> error option \<times> heap" where
  "SetKeyVote_h M p keyID v h =
    (case GetKey_h h (b_state (builders h p)) keyID of
       Inl err \<Rightarrow> (Some (FailedReadingKey keyID err), h)
     | Inr _ \<Rightarrow>
         mkUpdate_h M p \<lparr>MessageKind = AUMUpdateKey, PrevAUMHash = [], Key = None,
           KeyID = keyID, Votes = Some v, Meta = None, Signatures = []\<rparr> h)"

definition SetKeyMeta_h ::
  "aum_methods \<Rightarrow> bref \<Rightarrow> KeyID \<Rightarrow> (string \<rightharpoonup> string) option \<Rightarrow> heap
    \<Rightarrow> error option \<times> heap" where
  "SetKeyMeta_h M p keyID m h =
    (case GetKey_h h (b_state (builders h p)) keyID of
       Inl err \<Rightarrow> (Some (FailedReadingKey keyID err), h)
     | Inr _ \<Rightarrow>
         mkUpdate_h M p \<lparr>MessageKind = AUMUpdateKey, PrevAUMHash = [], Key = None,
           KeyID = keyID, Votes = None, Meta = m, Signatures = []\<rparr> h)"

text \<open>
  Lines 113 to 120: a new builder object, its address returned. Its State field is the
  copy of \<^verbatim>\<open>a.state\<close>, the address of the Authority's own cell.
\<close>
definition NewUpdater_h :: "aref \<Rightarrow> Signer option \<Rightarrow> heap \<Rightarrow> bref \<times> heap" where
  "NewUpdater_h r sg h =
    (next_builder h,
     h\<lparr>builders := (builders h)
         (next_builder h :=
            \<lparr>b_a = r, b_signer = sg, b_state = auth_state (authorities h r),
             b_parent = auth_head (authorities h r), b_out = []\<rparr>),
       next_builder := Suc (next_builder h)\<rparr>)"

fun call_h :: "aum_methods \<Rightarrow> edit \<Rightarrow> bref \<Rightarrow> heap \<Rightarrow> error option \<times> heap" where
  "call_h M (CallAddKey key) p h = AddKey_h M p key h"
| "call_h M (CallRemoveKey keyID) p h = RemoveKey_h M p keyID h"
| "call_h M (CallSetKeyVote keyID v) p h = SetKeyVote_h M p keyID v h"
| "call_h M (CallSetKeyMeta keyID m) p h = SetKeyMeta_h M p keyID m h"
| "call_h M (CallMkUpdate update) p h = mkUpdate_h M p update h"

text \<open>The calls of a session on the builder object at \<open>p\<close>, in order.\<close>
fun session_h :: "aum_methods \<Rightarrow> edit list \<Rightarrow> bref \<Rightarrow> heap \<Rightarrow> heap" where
  "session_h M [] p h = h"
| "session_h M (e # es) p h = session_h M es p (snd (call_h M e p h))"

text \<open>
  \<open>only_builder_written p h h'\<close>: from \<open>h\<close> to \<open>h'\<close> no Authority object, no cell
  that was in use and no builder object but the one at \<open>p\<close> has changed, and that one
  still has its Authority and its signer.
\<close>
definition only_builder_written :: "bref \<Rightarrow> heap \<Rightarrow> heap \<Rightarrow> bool" where
  "only_builder_written p h h' =
    (authorities h' = authorities h
     \<and> (\<forall>c. c < next_state h \<longrightarrow> states h' c = states h c)
     \<and> next_state h \<le> next_state h'
     \<and> (\<forall>q. q \<noteq> p \<longrightarrow> builders h' q = builders h q)
     \<and> b_a (builders h' p) = b_a (builders h p)
     \<and> b_signer (builders h' p) = b_signer (builders h p))"

section \<open>The hash chain of a session\<close>

text \<open>
  \<open>linked M h us\<close>: the first update of \<open>us\<close> names \<open>h\<close> as its predecessor and every
  later one names the hash of the update before it. \<open>tip M h us\<close> is the hash the next
  update has to name.
\<close>
fun linked :: "aum_methods \<Rightarrow> AUMHash \<Rightarrow> AUM list \<Rightarrow> bool" where
  "linked M h [] = True"
| "linked M h (u # us) = (PrevAUMHash u = bytes_of h \<and> linked M (Hash M u) us)"

fun tip :: "aum_methods \<Rightarrow> AUMHash \<Rightarrow> AUM list \<Rightarrow> AUMHash" where
  "tip M h [] = h"
| "tip M h (u # us) = tip M (Hash M u) us"

definition chain_inv :: "aum_methods \<Rightarrow> AUMHash \<Rightarrow> UpdateBuilder \<Rightarrow> bool" where
  "chain_inv M h b = (linked M h (out b) \<and> parent b = tip M h (out b))"

section \<open>An example deployment\<close>

text \<open>
  Concrete values for the instances below: an encoding that hashes the key identifiers
  of an update, a validation that checks the fields its kind requires, the keys A and B
  of the scenario in the spec's testable properties, an Authority store whose State
  holds A, the same store after a commit has moved the head, and two signers.
\<close>

definition methods_ex :: aum_methods where
  "methods_ex =
    \<lparr>Hash = (\<lambda>u. decode_hash
       ((case MessageKind u of AUMAddKey \<Rightarrow> 1 | AUMRemoveKey \<Rightarrow> 2 | AUMUpdateKey \<Rightarrow> 3)
         # KeyID u @ (case Key u of None \<Rightarrow> [] | Some k \<Rightarrow> ID k))),
     SigHash = (\<lambda>u. decode_hash (KeyID u)),
     StaticValidate = (\<lambda>u.
       case MessageKind u of
         AUMAddKey \<Rightarrow> (if Key u = None then Some StructuralInvalid else None)
       | AUMRemoveKey \<Rightarrow> (if KeyID u = [] then Some StructuralInvalid else None)
       | AUMUpdateKey \<Rightarrow> (if KeyID u = [] then Some StructuralInvalid else None))\<rparr>"

definition keyA :: Key where
  "keyA = \<lparr>ID = [1], votes = 2, meta = Map.empty\<rparr>"

definition keyB :: Key where
  "keyB = \<lparr>ID = [2], votes = 1, meta = Map.empty\<rparr>"

definition store_ex :: store where
  "store_ex = (\<lambda>r. \<lparr>head = zero_hash, state = [[1] \<mapsto> keyA]\<rparr>)"

definition store_moved :: store where
  "store_moved = (\<lambda>r. \<lparr>head = decode_hash [7], state = [[1] \<mapsto> keyA]\<rparr>)"

definition signer_ok :: Signer where
  "signer_ok = (\<lambda>h. Inr [[9]])"

definition signer_fails :: Signer where
  "signer_fails = (\<lambda>h. Inl (External ''no token''))"

text \<open>
  The scenario of the spec: from the State that holds A, add B with one vote, give B
  three votes, remove A.
\<close>
definition scenario :: UpdateBuilder where
  "scenario =
    session methods_ex [CallAddKey keyB, CallSetKeyVote [2] 3, CallRemoveKey [1]]
      (NewUpdater store_ex 0 (Some signer_ok))"

text \<open>
  The heap of that deployment: every Authority has the zero head and its State, which
  holds A, in cell 0; cell 1 and builder address 0 are the first that are free.
\<close>
definition heap_ex :: heap where
  "heap_ex =
    \<lparr>authorities = (\<lambda>r. \<lparr>auth_head = zero_hash, auth_state = 0\<rparr>),
     builders = (\<lambda>p. \<lparr>b_a = 0, b_signer = None, b_state = 0, b_parent = zero_hash,
       b_out = []\<rparr>),
     states = (\<lambda>s. [[1] \<mapsto> keyA]),
     next_state = 1,
     next_builder = 0\<rparr>"

section \<open>Basic facts\<close>

lemma length_bytes_of [simp]: "length (bytes_of h) = 32"
  using bytes_of [of h] by simp

lemma copy_bytes_fresh: "length bs = n \<Longrightarrow> copy_bytes (make_bytes n) bs = bs"
  by (simp add: copy_bytes_def make_bytes_def)

lemma decode_hash_bytes_of [simp]: "decode_hash (bytes_of h) = h"
  by transfer (simp add: copy_bytes_def make_bytes_def)

lemma link_update_eq: "link_update b u = u\<lparr>PrevAUMHash := bytes_of (parent b)\<rparr>"
  by (simp add: link_update_def copy_bytes_fresh)

lemma PrevAUMHash_link_update [simp]: "PrevAUMHash (link_update b u) = bytes_of (parent b)"
  by (simp add: link_update_eq)

lemma sign_update_cases:
  "sign_update M b u = Inr u' \<Longrightarrow>
     (signer b = None \<and> u' = u) \<or>
     (\<exists>sg sigs. signer b = Some sg \<and> sg (SigHash M u) = Inr sigs \<and>
        u' = u\<lparr>Signatures := Signatures u @ sigs\<rparr>)"
  by (auto simp: sign_update_def split: option.splits sum.splits)

lemma PrevAUMHash_sign_update:
  "sign_update M b u = Inr u' \<Longrightarrow> PrevAUMHash u' = PrevAUMHash u"
  by (auto dest: sign_update_cases)

lemma tip_snoc [simp]: "tip M h (us @ [u]) = Hash M u"
  by (induction us arbitrary: h) simp_all

lemma linked_snoc [simp]:
  "linked M h (us @ [u]) = (linked M h us \<and> PrevAUMHash u = bytes_of (tip M h us))"
  by (induction us arbitrary: h) auto

lemma tip_last: "us \<noteq> [] \<Longrightarrow> tip M h us = Hash M (last us)"
  by (induction us arbitrary: h) auto

lemma linked_nth:
  "linked M h us \<Longrightarrow> i < length us \<Longrightarrow>
     PrevAUMHash (us ! i) = bytes_of (if i = 0 then h else Hash M (us ! (i - 1)))"
proof (induction us arbitrary: h i)
  case Nil
  then show ?case by simp
next
  case (Cons u us)
  show ?case
  proof (cases i)
    case 0
    with Cons.prems show ?thesis by simp
  next
    case (Suc j)
    with Cons.prems have "PrevAUMHash (us ! j) =
        bytes_of (if j = 0 then Hash M u else Hash M (us ! (j - 1)))"
      using Cons.IH [of "Hash M u" j] by simp
    with Suc show ?thesis by (cases j) simp_all
  qed
qed

lemma Parent_of_prev: "PrevAUMHash u = bytes_of h \<Longrightarrow> fst (Parent u) = h"
  by (simp add: Parent_def)

lemma mkUpdate_result:
  "snd (mkUpdate M b u) = b \<or>
   (\<exists>u' st. snd (mkUpdate M b u) = b\<lparr>state := st, parent := Hash M u', out := out b @ [u']\<rparr>
      \<and> PrevAUMHash u' = bytes_of (parent b))"
proof (cases "fst (mkUpdate M b u)")
  case None
  then obtain u' st where ok: "sign_update M b (link_update b u) = Inr u'"
      "StaticValidate M u' = None" "applyVerifiedAUM (state b) u' = Inr st"
    by (auto simp: mkUpdate_def split: option.splits sum.splits)
  then have "PrevAUMHash u' = bytes_of (parent b)"
    using PrevAUMHash_sign_update [of M b "link_update b u" u'] by simp
  with ok show ?thesis by (auto simp: mkUpdate_def)
next
  case (Some e)
  then show ?thesis by (auto simp: mkUpdate_def split: option.splits sum.splits)
qed

lemma chain_inv_mkUpdate: "chain_inv M h b \<Longrightarrow> chain_inv M h (snd (mkUpdate M b u))"
  using mkUpdate_result [of M b u] by (auto simp: chain_inv_def)

lemma a_mkUpdate [simp]: "a (snd (mkUpdate M b u)) = a b"
  using mkUpdate_result [of M b u] by auto

lemma signer_mkUpdate [simp]: "signer (snd (mkUpdate M b u)) = signer b"
  using mkUpdate_result [of M b u] by auto

lemma chain_inv_call: "chain_inv M h b \<Longrightarrow> chain_inv M h (snd (call M e b))"
  by (cases e)
    (simp_all add: AddKey_def RemoveKey_def SetKeyVote_def SetKeyMeta_def chain_inv_mkUpdate
      split: sum.splits)

lemma a_call [simp]: "a (snd (call M e b)) = a b"
  by (cases e)
    (simp_all add: AddKey_def RemoveKey_def SetKeyVote_def SetKeyMeta_def split: sum.splits)

lemma signer_call [simp]: "signer (snd (call M e b)) = signer b"
  by (cases e)
    (simp_all add: AddKey_def RemoveKey_def SetKeyVote_def SetKeyMeta_def split: sum.splits)

lemma chain_inv_session: "chain_inv M h b \<Longrightarrow> chain_inv M h (session M es b)"
  by (induction es arbitrary: b) (simp_all add: chain_inv_call)

lemma chain_inv_NewUpdater: "chain_inv M (Head (\<sigma> r)) (NewUpdater \<sigma> r sg)"
  by (simp add: chain_inv_def NewUpdater_def)

lemma a_session [simp]: "a (session M es b) = a b"
  by (induction es arbitrary: b) simp_all

lemma signer_session [simp]: "signer (session M es b) = signer b"
  by (induction es arbitrary: b) simp_all

lemma only_builder_written_refl [simp]: "only_builder_written p h h"
  by (simp add: only_builder_written_def)

lemma only_builder_written_trans:
  "only_builder_written p h h' \<Longrightarrow> only_builder_written p h' h'' \<Longrightarrow>
     only_builder_written p h h''"
  by (auto simp: only_builder_written_def)

lemma mkUpdate_h_writes: "only_builder_written p h (snd (mkUpdate_h M p u h))"
  by (auto simp: mkUpdate_h_def applyVerifiedAUM_h_def only_builder_written_def
      split: sum.splits option.splits)

lemma call_h_writes: "only_builder_written p h (snd (call_h M e p h))"
  by (cases e)
    (simp_all add: AddKey_h_def RemoveKey_h_def SetKeyVote_h_def SetKeyMeta_h_def
      mkUpdate_h_writes split: sum.splits)

lemma session_h_writes: "only_builder_written p h (session_h M es p h)"
proof (induction es arbitrary: h)
  case Nil
  show ?case by simp
next
  case (Cons e es)
  from call_h_writes [of p h M e] Cons.IH [of "snd (call_h M e p h)"]
  show ?case by (simp add: only_builder_written_trans)
qed

lemma mkUpdate_h_deref:
  "fst (mkUpdate_h M p u h) = fst (mkUpdate M (deref h p) u)
   \<and> deref (snd (mkUpdate_h M p u h)) p = snd (mkUpdate M (deref h p) u)"
  by (auto simp: mkUpdate_h_def mkUpdate_def applyVerifiedAUM_h_def deref_def
      split: sum.splits option.splits)

lemma call_h_deref:
  "fst (call_h M e p h) = fst (call M e (deref h p))
   \<and> deref (snd (call_h M e p h)) p = snd (call M e (deref h p))"
proof -
  have s: "b_state (builders h p) = c \<Longrightarrow> states h c = state (deref h p)" for c
    by (simp add: deref_def)
  show ?thesis
    by (cases e)
      (simp_all add: AddKey_h_def RemoveKey_h_def SetKeyVote_h_def SetKeyMeta_h_def
        AddKey_def RemoveKey_def SetKeyVote_def SetKeyMeta_def GetKey_h_def s
        mkUpdate_h_deref split: sum.splits)
qed

lemma session_h_deref: "deref (session_h M es p h) p = session M es (deref h p)"
  by (induction es arbitrary: h) (simp_all add: call_h_deref)

lemma NewUpdater_h_deref:
  "deref (snd (NewUpdater_h r sg h)) (fst (NewUpdater_h r sg h)) = NewUpdater (store_of h) r sg"
  by (simp add: NewUpdater_h_def deref_def NewUpdater_def store_of_def Head_def)

lemma NewUpdater_h_heap:
  "authorities (snd (NewUpdater_h r sg h)) = authorities h
   \<and> states (snd (NewUpdater_h r sg h)) = states h
   \<and> next_state (snd (NewUpdater_h r sg h)) = next_state h
   \<and> b_state (builders (snd (NewUpdater_h r sg h)) (fst (NewUpdater_h r sg h)))
       = auth_state (authorities h r)"
  by (simp add: NewUpdater_h_def)

lemmas ex_defs = methods_ex_def keyA_def keyB_def store_ex_def store_moved_def signer_ok_def
  signer_fails_def NewUpdater_def Head_def

lemmas op_defs = AddKey_def RemoveKey_def SetKeyVote_def SetKeyMeta_def GetKey_def mkUpdate_def
  sign_update_def applyVerifiedAUM_def link_update_eq

lemma moved_head_differs: "decode_hash [7] \<noteq> zero_hash"
proof
  assume "decode_hash [7] = zero_hash"
  then have "hd (bytes_of (decode_hash [7])) = hd (bytes_of zero_hash)" by simp
  then show False
    by (simp add: decode_hash.rep_eq zero_hash.rep_eq copy_bytes_def make_bytes_def)
qed

lemma length_out_scenario: "length (out scenario) = 3"
  by (simp add: scenario_def ex_defs op_defs)

lemma state_scenario: "state scenario = [[2] \<mapsto> keyB\<lparr>votes := 3\<rparr>]"
  by (simp add: scenario_def ex_defs op_defs fun_eq_iff)

section \<open>mkUpdate\<close>

text \<open>
  C1. When a step of \<open>mkUpdate\<close> fails (the Signer returns an error, StaticValidate
  rejects the update, or applyVerifiedAUM fails), \<open>mkUpdate\<close> returns an error and the
  builder's state, parent and output list are what they were before the call. More:
  whenever \<open>mkUpdate\<close> returns an error, the whole builder is unchanged.
\<close>
theorem mkUpdate_failure_atomic:
  "(((\<exists>sg err. signer b = Some sg \<and> sg (SigHash M (link_update b u)) = Inl err)
     \<or> (\<exists>u'. sign_update M b (link_update b u) = Inr u' \<and> StaticValidate M u' \<noteq> None)
     \<or> (\<exists>u' err. sign_update M b (link_update b u) = Inr u'
           \<and> applyVerifiedAUM (state b) u' = Inl err))
    \<longrightarrow> fst (mkUpdate M b u) \<noteq> None
        \<and> state (snd (mkUpdate M b u)) = state b
        \<and> parent (snd (mkUpdate M b u)) = parent b
        \<and> out (snd (mkUpdate M b u)) = out b)
   \<and> (fst (mkUpdate M b u) \<noteq> None \<longrightarrow> snd (mkUpdate M b u) = b)"
  by (auto simp: mkUpdate_def sign_update_def split: option.splits sum.splits)

theorem mkUpdate_failure_atomic_witness:
  "signer (NewUpdater store_ex 0 (Some signer_fails)) = Some signer_fails
   \<and> fst (mkUpdate methods_ex (NewUpdater store_ex 0 (Some signer_fails))
        \<lparr>MessageKind = AUMRemoveKey, PrevAUMHash = [], Key = None, KeyID = [1],
          Votes = None, Meta = None, Signatures = []\<rparr>) \<noteq> None
   \<and> snd (mkUpdate methods_ex (NewUpdater store_ex 0 (Some signer_fails))
        \<lparr>MessageKind = AUMRemoveKey, PrevAUMHash = [], Key = None, KeyID = [1],
          Votes = None, Meta = None, Signatures = []\<rparr>)
      = NewUpdater store_ex 0 (Some signer_fails)"
proof -
  let ?b = "NewUpdater store_ex 0 (Some signer_fails)"
  let ?u = "\<lparr>MessageKind = AUMRemoveKey, PrevAUMHash = [], Key = None, KeyID = [1],
          Votes = None, Meta = None, Signatures = []\<rparr>"
  have s: "signer ?b = Some signer_fails" by (simp add: NewUpdater_def)
  have f: "signer_fails (SigHash methods_ex (link_update ?b ?u)) = Inl (External ''no token'')"
    by (simp add: signer_fails_def)
  from s f have "\<exists>sg err. signer ?b = Some sg
      \<and> sg (SigHash methods_ex (link_update ?b ?u)) = Inl err"
    by blast
  with mkUpdate_failure_atomic [of ?b methods_ex ?u] s show ?thesis by blast
qed

text \<open>
  C2. \<open>mkUpdate\<close> sets the candidate's \<open>PrevAUMHash\<close> to the builder's parent. It
  returns no error exactly when signing, StaticValidate and applyVerifiedAUM all
  succeed, and then the builder has the State that applyVerifiedAUM returned, the hash
  of the (linked and signed) candidate as parent, and the candidate appended to its
  output list.
\<close>
theorem mkUpdate_success_commits:
  "PrevAUMHash (link_update b u) = bytes_of (parent b)
   \<and> ((fst (mkUpdate M b u) = None) =
        (\<exists>u' st. sign_update M b (link_update b u) = Inr u'
           \<and> StaticValidate M u' = None
           \<and> applyVerifiedAUM (state b) u' = Inr st))
   \<and> (\<forall>u' st. sign_update M b (link_update b u) = Inr u'
           \<and> StaticValidate M u' = None
           \<and> applyVerifiedAUM (state b) u' = Inr st
         \<longrightarrow> mkUpdate M b u =
               (None, b\<lparr>state := st, parent := Hash M u', out := out b @ [u']\<rparr>)
             \<and> PrevAUMHash u' = bytes_of (parent b)
             \<and> fst (Parent u') = parent b)"
proof (intro conjI allI impI)
  show "PrevAUMHash (link_update b u) = bytes_of (parent b)" by simp
next
  show "(fst (mkUpdate M b u) = None) =
        (\<exists>u' st. sign_update M b (link_update b u) = Inr u'
           \<and> StaticValidate M u' = None
           \<and> applyVerifiedAUM (state b) u' = Inr st)"
    by (auto simp: mkUpdate_def split: option.splits sum.splits)
next
  fix u' st
  assume ok: "sign_update M b (link_update b u) = Inr u'
           \<and> StaticValidate M u' = None
           \<and> applyVerifiedAUM (state b) u' = Inr st"
  then show "mkUpdate M b u =
               (None, b\<lparr>state := st, parent := Hash M u', out := out b @ [u']\<rparr>)"
    by (simp add: mkUpdate_def)
  from ok show prev: "PrevAUMHash u' = bytes_of (parent b)"
    using PrevAUMHash_sign_update [of M b "link_update b u" u'] by simp
  then show "fst (Parent u') = parent b" by (simp add: Parent_def)
qed

theorem mkUpdate_success_commits_witness:
  "sign_update methods_ex (NewUpdater store_ex 0 (Some signer_ok))
      (link_update (NewUpdater store_ex 0 (Some signer_ok))
        \<lparr>MessageKind = AUMAddKey, PrevAUMHash = [], Key = Some keyB, KeyID = [],
          Votes = None, Meta = None, Signatures = []\<rparr>)
     = Inr \<lparr>MessageKind = AUMAddKey, PrevAUMHash = bytes_of zero_hash, Key = Some keyB,
          KeyID = [], Votes = None, Meta = None, Signatures = [[9]]\<rparr>
   \<and> mkUpdate methods_ex (NewUpdater store_ex 0 (Some signer_ok))
        \<lparr>MessageKind = AUMAddKey, PrevAUMHash = [], Key = Some keyB, KeyID = [],
          Votes = None, Meta = None, Signatures = []\<rparr>
     = (None,
        \<lparr>a = 0, signer = Some signer_ok, state = [[1] \<mapsto> keyA, [2] \<mapsto> keyB],
          parent = decode_hash [1, 2],
          out = [\<lparr>MessageKind = AUMAddKey, PrevAUMHash = bytes_of zero_hash,
            Key = Some keyB, KeyID = [], Votes = None, Meta = None, Signatures = [[9]]\<rparr>]\<rparr>)"
proof -
  let ?b = "NewUpdater store_ex 0 (Some signer_ok)"
  let ?u = "\<lparr>MessageKind = AUMAddKey, PrevAUMHash = [], Key = Some keyB, KeyID = [],
          Votes = None, Meta = None, Signatures = []\<rparr>"
  let ?u' = "\<lparr>MessageKind = AUMAddKey, PrevAUMHash = bytes_of zero_hash, Key = Some keyB,
          KeyID = [], Votes = None, Meta = None, Signatures = [[9]]\<rparr>"
  let ?st = "[[1] \<mapsto> keyA, [2] \<mapsto> keyB]"
  have s: "sign_update methods_ex ?b (link_update ?b ?u) = Inr ?u'"
    by (simp add: ex_defs op_defs)
  have v: "StaticValidate methods_ex ?u' = None"
    by (simp add: ex_defs)
  have ap: "applyVerifiedAUM (state ?b) ?u' = Inr ?st"
    by (simp add: ex_defs op_defs)
  from mkUpdate_success_commits [of ?b ?u methods_ex] s v ap
  have "mkUpdate methods_ex ?b ?u =
      (None, ?b\<lparr>state := ?st, parent := Hash methods_ex ?u', out := out ?b @ [?u']\<rparr>)"
    by blast
  with s show ?thesis by (simp add: ex_defs)
qed

text \<open>
  C6. The steps of \<open>mkUpdate\<close> in their order. The Signer, when there is one, is given
  the SigHash of the update that already has its \<open>PrevAUMHash\<close>; when it fails the call
  fails with the signing error, whatever validation or application would say. The
  update that StaticValidate sees has the returned signatures appended; with no Signer
  it is the linked update, its signatures untouched. A validation error is returned
  before applyVerifiedAUM counts; applyVerifiedAUM runs on the same update and decides
  the rest.
\<close>
theorem mkUpdate_step_order:
  "(\<forall>sg err. signer b = Some sg \<and> sg (SigHash M (link_update b u)) = Inl err
       \<longrightarrow> mkUpdate M b u = (Some (SigningFailed err), b))
   \<and> (\<forall>v. (signer b = None \<and> v = link_update b u)
            \<or> (\<exists>sg sigs. signer b = Some sg
                  \<and> sg (SigHash M (link_update b u)) = Inr sigs
                  \<and> v = (link_update b u)
                        \<lparr>Signatures := Signatures (link_update b u) @ sigs\<rparr>)
       \<longrightarrow> (\<forall>err. StaticValidate M v = Some err
               \<longrightarrow> mkUpdate M b u = (Some (UpdateInvalid err), b))
          \<and> (\<forall>err. StaticValidate M v = None \<and> applyVerifiedAUM (state b) v = Inl err
               \<longrightarrow> mkUpdate M b u = (Some (CannotApply err), b))
          \<and> (\<forall>st. StaticValidate M v = None \<and> applyVerifiedAUM (state b) v = Inr st
               \<longrightarrow> mkUpdate M b u =
                     (None, b\<lparr>state := st, parent := Hash M v, out := out b @ [v]\<rparr>)))"
  by (auto simp: mkUpdate_def sign_update_def)

theorem mkUpdate_step_order_witness:
  "signer (NewUpdater store_ex 0 (Some signer_fails)) = Some signer_fails
   \<and> signer_fails (SigHash methods_ex (link_update (NewUpdater store_ex 0 (Some signer_fails))
        \<lparr>MessageKind = AUMRemoveKey, PrevAUMHash = [], Key = None, KeyID = [1],
          Votes = None, Meta = None, Signatures = []\<rparr>)) = Inl (External ''no token'')
   \<and> mkUpdate methods_ex (NewUpdater store_ex 0 (Some signer_fails))
        \<lparr>MessageKind = AUMRemoveKey, PrevAUMHash = [], Key = None, KeyID = [1],
          Votes = None, Meta = None, Signatures = []\<rparr>
      = (Some (SigningFailed (External ''no token'')), NewUpdater store_ex 0 (Some signer_fails))"
proof -
  let ?b = "NewUpdater store_ex 0 (Some signer_fails)"
  let ?u = "\<lparr>MessageKind = AUMRemoveKey, PrevAUMHash = [], Key = None, KeyID = [1],
          Votes = None, Meta = None, Signatures = []\<rparr>"
  have s: "signer ?b = Some signer_fails" by (simp add: NewUpdater_def)
  have f: "signer_fails (SigHash methods_ex (link_update ?b ?u)) = Inl (External ''no token'')"
    by (simp add: signer_fails_def)
  from mkUpdate_step_order [of ?b methods_ex ?u] s f
  have "mkUpdate methods_ex ?b ?u = (Some (SigningFailed (External ''no token'')), ?b)"
    by blast
  with s f show ?thesis by blast
qed

section \<open>The public edit operations\<close>

text \<open>
  C5. Every public edit operation looks the key up in the speculative state first.
  \<open>AddKey\<close> on a present id fails with the already-exists error, and \<open>RemoveKey\<close>,
  \<open>SetKeyVote\<close> and \<open>SetKeyMeta\<close> on an absent id fail with the error of \<open>GetKey\<close>
  (NotFound), in each case with the builder unchanged and no update made. Otherwise
  the call is the call of \<open>mkUpdate\<close> on the update of its kind.
\<close>
theorem edits_check_key_first:
  "(state b (ID key) \<noteq> None \<longrightarrow> AddKey M b key = (Some (KeyAlreadyExists key), b))
   \<and> (state b (ID key) = None \<longrightarrow>
        AddKey M b key =
          mkUpdate M b \<lparr>MessageKind = AUMAddKey, PrevAUMHash = [], Key = Some key, KeyID = [],
            Votes = None, Meta = None, Signatures = []\<rparr>)
   \<and> (state b keyID = None \<longrightarrow>
        RemoveKey M b keyID = (Some (FailedReadingKey keyID NotFound), b)
        \<and> SetKeyVote M b keyID v = (Some (FailedReadingKey keyID NotFound), b)
        \<and> SetKeyMeta M b keyID m = (Some (FailedReadingKey keyID NotFound), b))
   \<and> (state b keyID \<noteq> None \<longrightarrow>
        RemoveKey M b keyID =
          mkUpdate M b \<lparr>MessageKind = AUMRemoveKey, PrevAUMHash = [], Key = None,
            KeyID = keyID, Votes = None, Meta = None, Signatures = []\<rparr>
        \<and> SetKeyVote M b keyID v =
          mkUpdate M b \<lparr>MessageKind = AUMUpdateKey, PrevAUMHash = [], Key = None,
            KeyID = keyID, Votes = Some v, Meta = None, Signatures = []\<rparr>
        \<and> SetKeyMeta M b keyID m =
          mkUpdate M b \<lparr>MessageKind = AUMUpdateKey, PrevAUMHash = [], Key = None,
            KeyID = keyID, Votes = None, Meta = m, Signatures = []\<rparr>)"
  by (auto simp: AddKey_def RemoveKey_def SetKeyVote_def SetKeyMeta_def GetKey_def
      split: option.splits)

theorem edits_check_key_first_witness:
  "state (NewUpdater store_ex 0 None) (ID keyA) \<noteq> None
   \<and> AddKey methods_ex (NewUpdater store_ex 0 None) keyA
      = (Some (KeyAlreadyExists keyA), NewUpdater store_ex 0 None)
   \<and> state (NewUpdater store_ex 0 None) [5] = None
   \<and> RemoveKey methods_ex (NewUpdater store_ex 0 None) [5]
      = (Some (FailedReadingKey [5] NotFound), NewUpdater store_ex 0 None)
   \<and> SetKeyVote methods_ex (NewUpdater store_ex 0 None) [5] 3
      = (Some (FailedReadingKey [5] NotFound), NewUpdater store_ex 0 None)
   \<and> SetKeyMeta methods_ex (NewUpdater store_ex 0 None) [5] None
      = (Some (FailedReadingKey [5] NotFound), NewUpdater store_ex 0 None)"
proof -
  let ?b = "NewUpdater store_ex 0 None"
  have p: "state ?b (ID keyA) \<noteq> None" by (simp add: ex_defs)
  have n: "state ?b [5] = None" by (simp add: ex_defs)
  from edits_check_key_first [of ?b keyA methods_ex "[5]" 3 None] p n
  show ?thesis by blast
qed

section \<open>NewUpdater and Finalize\<close>

text \<open>
  C7. \<open>NewUpdater\<close> returns a builder whose parent is the Authority's head and whose
  state is the Authority's state at the call, with an empty output list (and the given
  Authority and signer).
\<close>
theorem NewUpdater_snapshot:
  "parent (NewUpdater \<sigma> r sg) = Head (\<sigma> r)
   \<and> state (NewUpdater \<sigma> r sg) = Authority.state (\<sigma> r)
   \<and> out (NewUpdater \<sigma> r sg) = []
   \<and> a (NewUpdater \<sigma> r sg) = r
   \<and> signer (NewUpdater \<sigma> r sg) = sg"
  by (simp add: NewUpdater_def)

text \<open>
  C10. \<open>Finalize\<close> on a builder that produced no update returns the empty list and no
  error, whatever the Authority's head is by then.
\<close>
theorem Finalize_empty_session:
  "out b = [] \<Longrightarrow> Finalize \<sigma> b = ([], None)"
  by (simp add: Finalize_def)

theorem Finalize_empty_session_witness:
  "out (NewUpdater store_ex 0 None) = []
   \<and> Finalize store_moved (NewUpdater store_ex 0 None) = ([], None)"
proof -
  have e: "out (NewUpdater store_ex 0 None) = []" by (simp add: NewUpdater_def)
  from Finalize_empty_session [OF e, of store_moved] e show ?thesis by simp
qed

text \<open>
  C3. When the builder produced an update, \<open>Finalize\<close> compares the declared parent of
  the first one with the head of the Authority in the store as it is at this call: on a
  difference it returns an error and no updates, otherwise all the updates and no error.
  For a session begun with \<open>NewUpdater\<close> in a store \<open>\<tau>\<close> that means: the head at
  \<open>Finalize\<close> is compared with the head that was snapshotted.
\<close>
theorem Finalize_checks_current_head:
  "(out b \<noteq> [] \<longrightarrow>
      Finalize \<sigma> b =
        (if fst (Parent (out b ! 0)) = Head (\<sigma> (a b)) then (out b, None)
         else ([], Some (NoLongerApplies (fst (Parent (out b ! 0))) (Head (\<sigma> (a b)))))))
   \<and> (out (session M es (NewUpdater \<tau> r sg)) \<noteq> [] \<longrightarrow>
      Finalize \<sigma> (session M es (NewUpdater \<tau> r sg)) =
        (if Head (\<tau> r) = Head (\<sigma> r) then (out (session M es (NewUpdater \<tau> r sg)), None)
         else ([], Some (NoLongerApplies (Head (\<tau> r)) (Head (\<sigma> r))))))"
proof (intro conjI impI)
  assume "out b \<noteq> []"
  then show "Finalize \<sigma> b =
        (if fst (Parent (out b ! 0)) = Head (\<sigma> (a b)) then (out b, None)
         else ([], Some (NoLongerApplies (fst (Parent (out b ! 0))) (Head (\<sigma> (a b))))))"
    by (simp add: Finalize_def)
next
  let ?b = "session M es (NewUpdater \<tau> r sg)"
  assume ne: "out ?b \<noteq> []"
  have "chain_inv M (Head (\<tau> r)) ?b"
    by (rule chain_inv_session) (rule chain_inv_NewUpdater)
  then have "linked M (Head (\<tau> r)) (out ?b)" by (simp add: chain_inv_def)
  from linked_nth [OF this, of 0] ne have "fst (Parent (out ?b ! 0)) = Head (\<tau> r)"
    by (simp add: Parent_of_prev)
  moreover have "a ?b = r" by (simp add: NewUpdater_def)
  ultimately show "Finalize \<sigma> ?b =
        (if Head (\<tau> r) = Head (\<sigma> r) then (out ?b, None)
         else ([], Some (NoLongerApplies (Head (\<tau> r)) (Head (\<sigma> r)))))"
    using ne by (simp add: Finalize_def)
qed

theorem Finalize_checks_current_head_witness:
  "out scenario \<noteq> []
   \<and> Finalize store_moved scenario = ([], Some (NoLongerApplies zero_hash (decode_hash [7])))
   \<and> Finalize store_ex scenario = (out scenario, None)"
proof -
  have ne: "out scenario \<noteq> []" using length_out_scenario by auto
  have h0: "Head (store_ex 0) = zero_hash" and h1: "Head (store_moved 0) = decode_hash [7]"
    by (simp_all add: ex_defs)
  from Finalize_checks_current_head
    [where M = methods_ex
       and es = "[CallAddKey keyB, CallSetKeyVote [2] 3, CallRemoveKey [1]]"
       and \<tau> = store_ex and r = 0 and sg = "Some signer_ok" and \<sigma> = store_moved]
    ne h0 h1 moved_head_differs
  have m: "Finalize store_moved scenario =
      ([], Some (NoLongerApplies zero_hash (decode_hash [7])))"
    by (simp add: scenario_def)
  from Finalize_checks_current_head
    [where M = methods_ex
       and es = "[CallAddKey keyB, CallSetKeyVote [2] 3, CallRemoveKey [1]]"
       and \<tau> = store_ex and r = 0 and sg = "Some signer_ok" and \<sigma> = store_ex]
    ne
  have s: "Finalize store_ex scenario = (out scenario, None)"
    by (simp add: scenario_def)
  from ne m s show ?thesis by simp
qed

section \<open>Chain integrity\<close>

text \<open>
  C4. The updates of a session form a hash chain: each one after the first declares the
  hash of the one before it as its parent, the first declares the head that
  \<open>NewUpdater\<close> snapshotted, and the builder's parent is the hash of the last update
  (the snapshotted head when there is none). Every edit call preserves this invariant.
\<close>
theorem session_hash_chain:
  "(\<forall>i. 0 < i \<and> i < length (out (session M es (NewUpdater \<sigma> r sg))) \<longrightarrow>
        fst (Parent (out (session M es (NewUpdater \<sigma> r sg)) ! i)) =
        Hash M (out (session M es (NewUpdater \<sigma> r sg)) ! (i - 1)))
   \<and> (out (session M es (NewUpdater \<sigma> r sg)) \<noteq> [] \<longrightarrow>
        fst (Parent (out (session M es (NewUpdater \<sigma> r sg)) ! 0)) = Head (\<sigma> r))
   \<and> parent (session M es (NewUpdater \<sigma> r sg)) =
       (if out (session M es (NewUpdater \<sigma> r sg)) = [] then Head (\<sigma> r)
        else Hash M (last (out (session M es (NewUpdater \<sigma> r sg)))))
   \<and> (\<forall>h b e. chain_inv M h b \<longrightarrow> chain_inv M h (snd (call M e b)))"
proof -
  let ?b = "session M es (NewUpdater \<sigma> r sg)"
  have inv: "chain_inv M (Head (\<sigma> r)) ?b"
    by (rule chain_inv_session) (rule chain_inv_NewUpdater)
  then have l: "linked M (Head (\<sigma> r)) (out ?b)" and p: "parent ?b = tip M (Head (\<sigma> r)) (out ?b)"
    by (simp_all add: chain_inv_def)
  have "fst (Parent (out ?b ! i)) = Hash M (out ?b ! (i - 1))"
    if "0 < i \<and> i < length (out ?b)" for i
    using linked_nth [OF l, of i] that by (simp add: Parent_of_prev)
  moreover have "fst (Parent (out ?b ! 0)) = Head (\<sigma> r)" if "out ?b \<noteq> []"
    using linked_nth [OF l, of 0] that by (simp add: Parent_of_prev)
  moreover have "parent ?b = (if out ?b = [] then Head (\<sigma> r) else Hash M (last (out ?b)))"
    using p by (simp add: tip_last)
  ultimately show ?thesis by (simp add: chain_inv_call)
qed

theorem session_hash_chain_witness:
  "(0::nat) < 2 \<and> 2 < length (out scenario)
   \<and> fst (Parent (out scenario ! 2)) = Hash methods_ex (out scenario ! (2 - 1))
   \<and> out scenario \<noteq> []
   \<and> fst (Parent (out scenario ! 0)) = Head (store_ex 0)
   \<and> parent scenario = Hash methods_ex (last (out scenario))
   \<and> chain_inv methods_ex zero_hash (NewUpdater store_ex 0 None)
   \<and> chain_inv methods_ex zero_hash
        (snd (call methods_ex (CallAddKey keyB) (NewUpdater store_ex 0 None)))"
proof -
  have len: "length (out scenario) = 3" by (rule length_out_scenario)
  then have ne: "out scenario \<noteq> []" by auto
  have inv: "chain_inv methods_ex zero_hash (NewUpdater store_ex 0 None)"
    by (simp add: chain_inv_def ex_defs)
  note t = session_hash_chain
    [of methods_ex "[CallAddKey keyB, CallSetKeyVote [2] 3, CallRemoveKey [1]]"
      store_ex 0 "Some signer_ok", folded scenario_def]
  from t len have "fst (Parent (out scenario ! 2)) = Hash methods_ex (out scenario ! (2 - 1))"
    by simp
  moreover from t ne have "fst (Parent (out scenario ! 0)) = Head (store_ex 0)" by blast
  moreover from t ne have "parent scenario = Hash methods_ex (last (out scenario))" by simp
  moreover from t inv have "chain_inv methods_ex zero_hash
        (snd (call methods_ex (CallAddKey keyB) (NewUpdater store_ex 0 None)))" by blast
  ultimately show ?thesis using len ne inv by simp
qed

section \<open>The Authority is not written\<close>

text \<open>
  C8. No edit call of a builder (\<open>AddKey\<close>, \<open>RemoveKey\<close>, \<open>SetKeyVote\<close>, \<open>SetKeyMeta\<close>,
  \<open>mkUpdate\<close>) changes an Authority. After any sequence of calls on the builder object
  at \<open>p\<close> the Authority objects are the ones before, every State cell that was in use
  holds what it held, so the head and the State of every Authority are unchanged, and
  the builder still refers to its Authority. This holds for a builder that
  \<open>NewUpdater\<close> has just made, whose State is the Authority's own cell. On the builder
  the calls do what the methods on builder values compute.
\<close>
theorem edits_leave_authority:
  "authorities (session_h M es p h) = authorities h
   \<and> (\<forall>c. c < next_state h \<longrightarrow> states (session_h M es p h) c = states h c)
   \<and> (auth_state (authorities h r) < next_state h \<longrightarrow>
        Head (store_of (session_h M es p h) r) = Head (store_of h r)
        \<and> Authority.state (store_of (session_h M es p h) r) = Authority.state (store_of h r))
   \<and> b_a (builders (session_h M es p h) p) = b_a (builders h p)
   \<and> deref (session_h M es p h) p = session M es (deref h p)
   \<and> (auth_state (authorities h r) < next_state h \<longrightarrow>
        b_state (builders (snd (NewUpdater_h r sg h)) (fst (NewUpdater_h r sg h)))
          = auth_state (authorities h r)
        \<and> store_of (session_h M es (fst (NewUpdater_h r sg h)) (snd (NewUpdater_h r sg h))) r
          = store_of h r)"
proof -
  have w: "only_builder_written q g (session_h M es q g)" for q g
    by (rule session_h_writes)
  have keep: "store_of (session_h M es q g) r = store_of g r"
    if "auth_state (authorities g r) < next_state g" for q g
    using w [of q g] that by (simp add: only_builder_written_def store_of_def)
  let ?n = "NewUpdater_h r sg h"
  have "store_of (session_h M es (fst ?n) (snd ?n)) r = store_of h r"
    if "auth_state (authorities h r) < next_state h"
  proof -
    from that have "auth_state (authorities (snd ?n) r) < next_state (snd ?n)"
      by (simp add: NewUpdater_h_heap)
    then have "store_of (session_h M es (fst ?n) (snd ?n)) r = store_of (snd ?n) r"
      by (rule keep)
    also have "store_of (snd ?n) r = store_of h r"
      by (simp add: store_of_def NewUpdater_h_heap)
    finally show ?thesis .
  qed
  with w [of p h] keep [of h p] show ?thesis
    by (simp add: only_builder_written_def session_h_deref NewUpdater_h_heap)
qed

theorem edits_leave_authority_witness:
  "b_state (builders (snd (NewUpdater_h 0 (Some signer_ok) heap_ex)) 0)
     = auth_state (authorities (snd (NewUpdater_h 0 (Some signer_ok) heap_ex)) 0)
   \<and> auth_state (authorities (snd (NewUpdater_h 0 (Some signer_ok) heap_ex)) 0)
     < next_state (snd (NewUpdater_h 0 (Some signer_ok) heap_ex))
   \<and> state (deref
        (session_h methods_ex [CallAddKey keyB, CallSetKeyVote [2] 3, CallRemoveKey [1]] 0
          (snd (NewUpdater_h 0 (Some signer_ok) heap_ex))) 0)
     = [[2] \<mapsto> keyB\<lparr>votes := 3\<rparr>]
   \<and> Authority.state (store_of
        (session_h methods_ex [CallAddKey keyB, CallSetKeyVote [2] 3, CallRemoveKey [1]] 0
          (snd (NewUpdater_h 0 (Some signer_ok) heap_ex))) 0)
     = [[1] \<mapsto> keyA]
   \<and> Head (store_of
        (session_h methods_ex [CallAddKey keyB, CallSetKeyVote [2] 3, CallRemoveKey [1]] 0
          (snd (NewUpdater_h 0 (Some signer_ok) heap_ex))) 0)
     = zero_hash"
proof -
  let ?es = "[CallAddKey keyB, CallSetKeyVote [2] 3, CallRemoveKey [1]]"
  let ?h = "snd (NewUpdater_h 0 (Some signer_ok) heap_ex)"
  have al: "b_state (builders ?h 0) = auth_state (authorities ?h 0)"
    by (simp add: NewUpdater_h_def heap_ex_def)
  have lt: "auth_state (authorities ?h 0) < next_state ?h"
    by (simp add: NewUpdater_h_def heap_ex_def)
  have d: "deref ?h 0 = NewUpdater store_ex 0 (Some signer_ok)"
    by (simp add: NewUpdater_h_def heap_ex_def deref_def ex_defs)
  have st: "Authority.state (store_of ?h 0) = [[1] \<mapsto> keyA]"
    and hd: "Head (store_of ?h 0) = zero_hash"
    by (simp_all add: NewUpdater_h_def heap_ex_def store_of_def Head_def)
  from edits_leave_authority [of methods_ex ?es 0 ?h 0] lt d st hd
  have "state (deref (session_h methods_ex ?es 0 ?h) 0) = state scenario
      \<and> Authority.state (store_of (session_h methods_ex ?es 0 ?h) 0) = [[1] \<mapsto> keyA]
      \<and> Head (store_of (session_h methods_ex ?es 0 ?h) 0) = zero_hash"
    by (simp add: scenario_def)
  with al lt show ?thesis by (simp add: state_scenario)
qed

section \<open>SetKeyVote\<close>

text \<open>
  C9, as stated, asks \<open>SetKeyVote\<close> on a present id to succeed. It does not when the
  Signer fails: the key A is present, the call returns the signing error and the
  builder is unchanged.
\<close>
theorem SetKeyVote_present_signing_fails:
  "state (NewUpdater store_ex 0 (Some signer_fails)) [1] = Some keyA
   \<and> SetKeyVote methods_ex (NewUpdater store_ex 0 (Some signer_fails)) [1] 5
      = (Some (SigningFailed (External ''no token'')), NewUpdater store_ex 0 (Some signer_fails))"
  by (simp add: ex_defs op_defs)

text \<open>
  C9, amended. \<open>SetKeyVote\<close> on an absent id fails with the NotFound of \<open>GetKey\<close>. On a
  present id, when the signing step and StaticValidate accept the update it builds, the
  call succeeds and the new state differs from the old one in that key's vote weight
  only: its metadata, and every other key, are as before. The update is an UpdateKey
  for that id with the new votes and no metadata.
\<close>
theorem SetKeyVote_votes_only:
  "(state b keyID = None \<longrightarrow>
      SetKeyVote M b keyID v = (Some (FailedReadingKey keyID NotFound), b))
   \<and> (\<forall>k u'. state b keyID = Some k
         \<and> sign_update M b (link_update b
              \<lparr>MessageKind = AUMUpdateKey, PrevAUMHash = [], Key = None, KeyID = keyID,
                Votes = Some v, Meta = None, Signatures = []\<rparr>) = Inr u'
         \<and> StaticValidate M u' = None
       \<longrightarrow> fst (SetKeyVote M b keyID v) = None
         \<and> state (snd (SetKeyVote M b keyID v)) = (state b)(keyID \<mapsto> k\<lparr>votes := v\<rparr>)
         \<and> map_option meta (state (snd (SetKeyVote M b keyID v)) keyID) = Some (meta k)
         \<and> out (snd (SetKeyVote M b keyID v)) = out b @ [u']
         \<and> MessageKind u' = AUMUpdateKey \<and> KeyID u' = keyID
         \<and> Votes u' = Some v \<and> Meta u' = None)"
proof (intro conjI allI impI)
  assume "state b keyID = None"
  then show "SetKeyVote M b keyID v = (Some (FailedReadingKey keyID NotFound), b)"
    by (simp add: SetKeyVote_def GetKey_def)
next
  fix k u'
  let ?u = "\<lparr>MessageKind = AUMUpdateKey, PrevAUMHash = [], Key = None, KeyID = keyID,
                Votes = Some v, Meta = None, Signatures = []\<rparr>"
  assume h: "state b keyID = Some k \<and> sign_update M b (link_update b ?u) = Inr u'
         \<and> StaticValidate M u' = None"
  then have f: "MessageKind u' = AUMUpdateKey \<and> KeyID u' = keyID
         \<and> Votes u' = Some v \<and> Meta u' = None"
    using sign_update_cases [of M b "link_update b ?u" u'] by (auto simp: link_update_eq)
  then show "MessageKind u' = AUMUpdateKey" "KeyID u' = keyID" "Votes u' = Some v"
    "Meta u' = None" by simp_all
  from h f have ap: "applyVerifiedAUM (state b) u' = Inr ((state b)(keyID \<mapsto> k\<lparr>votes := v\<rparr>))"
    by (simp add: applyVerifiedAUM_def)
  with h have r: "SetKeyVote M b keyID v =
      (None, b\<lparr>state := (state b)(keyID \<mapsto> k\<lparr>votes := v\<rparr>), parent := Hash M u',
        out := out b @ [u']\<rparr>)"
    by (simp add: SetKeyVote_def GetKey_def mkUpdate_def)
  then show "fst (SetKeyVote M b keyID v) = None"
    "state (snd (SetKeyVote M b keyID v)) = (state b)(keyID \<mapsto> k\<lparr>votes := v\<rparr>)"
    "map_option meta (state (snd (SetKeyVote M b keyID v)) keyID) = Some (meta k)"
    "out (snd (SetKeyVote M b keyID v)) = out b @ [u']"
    by simp_all
qed

theorem SetKeyVote_votes_only_witness:
  "state (NewUpdater store_ex 0 (Some signer_ok)) [5] = None
   \<and> SetKeyVote methods_ex (NewUpdater store_ex 0 (Some signer_ok)) [5] 7
      = (Some (FailedReadingKey [5] NotFound), NewUpdater store_ex 0 (Some signer_ok))
   \<and> state (NewUpdater store_ex 0 (Some signer_ok)) [1] = Some keyA
   \<and> fst (SetKeyVote methods_ex (NewUpdater store_ex 0 (Some signer_ok)) [1] 7) = None
   \<and> state (snd (SetKeyVote methods_ex (NewUpdater store_ex 0 (Some signer_ok)) [1] 7))
      = [[1] \<mapsto> keyA\<lparr>votes := 7\<rparr>]"
proof -
  let ?b = "NewUpdater store_ex 0 (Some signer_ok)"
  let ?u = "\<lparr>MessageKind = AUMUpdateKey, PrevAUMHash = [], Key = None, KeyID = [1],
                Votes = Some 7, Meta = None, Signatures = []\<rparr>"
  let ?u' = "\<lparr>MessageKind = AUMUpdateKey, PrevAUMHash = bytes_of zero_hash, Key = None,
                KeyID = [1], Votes = Some 7, Meta = None, Signatures = [[9]]\<rparr>"
  have n: "state ?b [5] = None" and p: "state ?b [1] = Some keyA"
    by (simp_all add: ex_defs)
  have s: "sign_update methods_ex ?b (link_update ?b ?u) = Inr ?u'"
    by (simp add: ex_defs op_defs)
  have v: "StaticValidate methods_ex ?u' = None" by (simp add: ex_defs)
  from SetKeyVote_votes_only [of ?b "[5]" methods_ex 7] n
  have a1: "SetKeyVote methods_ex ?b [5] 7 = (Some (FailedReadingKey [5] NotFound), ?b)"
    by blast
  from SetKeyVote_votes_only [of ?b "[1]" methods_ex 7] p s v
  have a2: "fst (SetKeyVote methods_ex ?b [1] 7) = None
      \<and> state (snd (SetKeyVote methods_ex ?b [1] 7)) = (state ?b)([1] \<mapsto> keyA\<lparr>votes := 7\<rparr>)"
    by blast
  have "(state ?b)([1] \<mapsto> keyA\<lparr>votes := 7\<rparr>) = [[1] \<mapsto> keyA\<lparr>votes := 7\<rparr>]"
    by (simp add: ex_defs)
  with n p a1 a2 show ?thesis by simp
qed

end
